theory Spec2Isabelle
  imports Main "HOL-Library.AList"
begin

section \<open>Data model of \<open>ksicht/core/models.py\<close>\<close>

text \<open>
  Every model class is a record of the columns the operations below read. Primary keys
  (UUIDs and automatic integers) are natural numbers, a foreign key is the primary key of
  the row it points to. A \<open>DateField\<close> is a day number and a \<open>DateTimeField\<close> a point on one
  time line, both integers. A \<open>DecimalField(max_digits=5, decimal_places=2)\<close> is the integer
  number of hundredths, so that sums are exact. The one-character \<open>series\<close> column
  (\<open>"1"\<close> to \<open>"4"\<close>), which the store compares with \<open>__lte\<close>, is its digit.

  A table is the list of its rows in the order in which its default queryset yields them.
\<close>

record grade =
  grade_pk :: nat
  school_year :: string
  start_date :: "int option"
  end_date :: "int option"

record grade_series =
  gs_pk :: nat
  gs_grade :: nat
  gs_series :: nat
  submission_deadline :: int
  task_file_column :: "string option"
  results_published :: bool

text \<open>
  \<open>task_file\<close> is a \<open>models.FileField\<close>. The record holds its column, the stored file name,
  \<open>None\<close> when no file is attached. The attribute \<open>self.task_file\<close> is not the column: the
  field's descriptor wraps the stored name, also an absent one, in a \<open>FieldFile\<close> object, so
  the attribute is always such an object and never Python's \<open>None\<close>.
\<close>

datatype field_file = FieldFile "string option"

definition task_file :: "grade_series \<Rightarrow> field_file option" where
  "task_file self = Some (FieldFile (task_file_column self))"

record task =
  task_pk :: nat
  task_series :: nat
  task_title :: string
  task_points :: nat

record grade_application =
  ga_pk :: nat
  ga_grade :: nat
  ga_participant :: nat

record task_solution_submission =
  sub_application :: nat
  sub_task :: nat
  sub_file :: "string option"
  sub_score :: "int option"

record sticker =
  st_pk :: nat
  st_title :: string
  st_nr :: nat
  st_handpicked :: bool

record db =
  db_grades :: "grade list"
  db_series :: "grade_series list"
  db_tasks :: "task list"
  db_applications :: "grade_application list"
  db_submissions :: "task_solution_submission list"
  db_stickers :: "sticker list"

section \<open>Grade lifecycle\<close>

text \<open>
  \<open>GradeSeries.accepts_solution_submissions\<close>. The clock \<open>datetime.now(...)\<close> is the
  parameter \<open>now\<close>; \<open>self.task_file is not None\<close> tests the attribute, not the column.
\<close>

definition accepts_solution_submissions :: "int \<Rightarrow> grade_series \<Rightarrow> bool" where
  "accepts_solution_submissions now self \<longleftrightarrow>
     task_file self \<noteq> None \<and> submission_deadline self > now"

text \<open>\<open>pydash\<close>'s \<open>head\<close>: the first element, \<open>None\<close> on the empty list.\<close>

definition head :: "'a list \<Rightarrow> 'a option" where
  "head xs = (case xs of [] \<Rightarrow> None | x # _ \<Rightarrow> Some x)"

text \<open>The related manager \<open>grade.series.all()\<close>.\<close>

definition series_all :: "db \<Rightarrow> grade \<Rightarrow> grade_series list" where
  "series_all d self = filter (\<lambda>s. gs_grade s = grade_pk self) (db_series d)"

text \<open>
  \<open>Grade.get_current_series\<close>: filter, then the stable ascending \<open>list.sort\<close> on the
  deadline, then \<open>head\<close>.
\<close>

definition get_current_series :: "db \<Rightarrow> int \<Rightarrow> grade \<Rightarrow> grade_series option" where
  "get_current_series d now self =
     head (sort_key submission_deadline
             (filter (accepts_solution_submissions now) (series_all d self)))"

subsection \<open>Validation of a grade\<close>

text \<open>
  \<open>Grade.full_clean\<close>. The field validation of the base class is the parameter
  \<open>fields_ok\<close>; when it fails the base class raises and the overlap check is not reached.
  The store compares a \<open>NULL\<close> date with nothing. The error carries \<open>str(g)\<close>, the school
  year of the conflicting grade, which the message quotes.
\<close>

datatype validation_error = FieldErrors | DateOverlap string

definition date_lte :: "int option \<Rightarrow> int \<Rightarrow> bool" where
  "date_lte c x = (case c of None \<Rightarrow> False | Some v \<Rightarrow> v \<le> x)"

definition date_gte :: "int option \<Rightarrow> int \<Rightarrow> bool" where
  "date_gte c x = (case c of None \<Rightarrow> False | Some v \<Rightarrow> v \<ge> x)"

definition full_clean :: "(grade \<Rightarrow> bool) \<Rightarrow> db \<Rightarrow> grade \<Rightarrow> validation_error + unit" where
  "full_clean fields_ok d self =
     (if \<not> fields_ok self then Inl FieldErrors
      else case (start_date self, end_date self) of
        (Some sd, Some ed) \<Rightarrow>
          (case head (filter (\<lambda>g. grade_pk g \<noteq> grade_pk self)
                       (filter (\<lambda>g. date_lte (start_date g) sd \<and> date_gte (end_date g) sd
                                   \<or> date_lte (start_date g) ed \<and> date_gte (end_date g) ed)
                          (db_grades d))) of
             None \<Rightarrow> Inr ()
           | Some g \<Rightarrow> Inl (DateOverlap (school_year g)))
      | _ \<Rightarrow> Inr ())"

section \<open>Results aggregator\<close>

text \<open>
  A Python dictionary is an association list in insertion order: storing under a key
  already present replaces the value in place, a new key goes to the end
  (\<open>AList.update\<close>). A dictionary comprehension stores its items one after the other.
\<close>

definition dict_of :: "('k \<times> 'v) list \<Rightarrow> ('k \<times> 'v) list" where
  "dict_of items = foldl (\<lambda>dict (k, v). AList.update k v dict) [] items"

text \<open>
  The inner dictionary \<open>{"by_tasks": ..., "total": ...}\<close>. A key of \<open>by_tasks\<close> is a task or
  Python's \<open>None\<close>, which \<open>_find_task\<close> can return; a value is a score or \<open>None\<close>.
\<close>

record scores =
  by_tasks :: "(task option \<times> int option) list"
  total :: int

datatype py_error = KeyError

record results =
  max_score :: "nat option"
  listing :: "(grade_application \<times> (task option \<times> int option) list \<times> int) list"

text \<open>\<open>py_.find\<close>: the first element that satisfies the predicate, or \<open>None\<close>.\<close>

definition find_application :: "grade_application list \<Rightarrow> nat \<Rightarrow> grade_application option" where
  "find_application applications app_id = List.find (\<lambda>a. ga_pk a = app_id) applications"

definition find_task :: "task list \<Rightarrow> nat \<Rightarrow> task option" where
  "find_task tasks task_id = List.find (\<lambda>t. task_pk t = task_id) tasks"

text \<open>\<open>s.score or 0\<close>.\<close>

definition score_or_0 :: "task_solution_submission \<Rightarrow> int" where
  "score_or_0 s = (case sub_score s of None \<Rightarrow> 0 | Some v \<Rightarrow> v)"

text \<open>
  The body of \<open>for s in submissions\<close>. \<open>scoring_dict[a]\<close> raises \<open>KeyError\<close> when \<open>a\<close> is
  \<open>None\<close> or not a key; \<open>by_tasks[t] = s.score\<close> stores under \<open>t\<close> whatever \<open>t\<close> is.
\<close>

definition score_submission ::
  "grade_application list \<Rightarrow> task list \<Rightarrow> task_solution_submission \<Rightarrow>
   (grade_application \<times> scores) list \<Rightarrow> py_error + (grade_application \<times> scores) list" where
  "score_submission applications tasks s scoring_dict =
     (let a = find_application applications (sub_application s);
          t = find_task tasks (sub_task s)
      in case a of
           None \<Rightarrow> Inl KeyError
         | Some a' \<Rightarrow>
             (case map_of scoring_dict a' of
                None \<Rightarrow> Inl KeyError
              | Some sc \<Rightarrow>
                  Inr (AList.update a'
                         \<lparr>by_tasks = AList.update t (sub_score s) (by_tasks sc),
                          total = total sc + score_or_0 s\<rparr>
                         scoring_dict)))"

fun score_submissions ::
  "grade_application list \<Rightarrow> task list \<Rightarrow> task_solution_submission list \<Rightarrow>
   (grade_application \<times> scores) list \<Rightarrow> py_error + (grade_application \<times> scores) list" where
  "score_submissions applications tasks [] scoring_dict = Inr scoring_dict"
| "score_submissions applications tasks (s # ss) scoring_dict =
     (case score_submission applications tasks s scoring_dict of
        Inl e \<Rightarrow> Inl e
      | Inr scoring_dict' \<Rightarrow> score_submissions applications tasks ss scoring_dict')"

text \<open>The querysets of \<open>calculate_results\<close>; a lookup across a foreign key is a join.\<close>

definition grade_applications :: "db \<Rightarrow> nat \<Rightarrow> grade_application list" where
  "grade_applications d g = filter (\<lambda>a. ga_grade a = g) (db_applications d)"

definition series_tasks :: "db \<Rightarrow> grade_series \<Rightarrow> task list" where
  "series_tasks d self = filter (\<lambda>t. task_series t = gs_pk self) (db_tasks d)"

text \<open>
  \<open>filter(application__grade=self.grade, task__series__series__lte=self.series)\<close>: the first
  condition joins the submission with its application, the second with its task and the
  task's series.
\<close>

definition application_in_grade :: "db \<Rightarrow> nat \<Rightarrow> nat \<Rightarrow> bool" where
  "application_in_grade d g app_id \<longleftrightarrow>
     (\<exists>a \<in> set (db_applications d). ga_pk a = app_id \<and> ga_grade a = g)"

definition task_series_lte :: "db \<Rightarrow> grade_series \<Rightarrow> nat \<Rightarrow> bool" where
  "task_series_lte d self task_id \<longleftrightarrow>
     (\<exists>t \<in> set (db_tasks d). task_pk t = task_id
        \<and> (\<exists>r \<in> set (db_series d). gs_pk r = task_series t \<and> gs_series r \<le> gs_series self))"

definition series_submissions :: "db \<Rightarrow> grade_series \<Rightarrow> task_solution_submission list" where
  "series_submissions d self =
     filter (\<lambda>s. application_in_grade d (gs_grade self) (sub_application s)
               \<and> task_series_lte d self (sub_task s))
       (db_submissions d)"

text \<open>\<open>Task.objects.filter(series__grade=self.grade, series__series__lte=self.series)\<close>\<close>

definition tasks_so_far :: "db \<Rightarrow> grade_series \<Rightarrow> task list" where
  "tasks_so_far d self =
     filter (\<lambda>t. \<exists>r \<in> set (db_series d). gs_pk r = task_series t
                   \<and> gs_grade r = gs_grade self \<and> gs_series r \<le> gs_series self)
       (db_tasks d)"

text \<open>
  \<open>aggregate(models.Sum("points"))["points__sum"]\<close>: the store's \<open>SUM\<close>, which is \<open>NULL\<close>
  (Python's \<open>None\<close>) over no rows.
\<close>

definition points_sum :: "task list \<Rightarrow> nat option" where
  "points_sum ts = (if ts = [] then None else Some (sum_list (map task_points ts)))"

text \<open>
  The dictionary comprehension that initialises \<open>scoring_dict\<close>: every application of
  the grade gets its own \<open>by_tasks\<close> with the tasks of the series, all unscored, and the
  total 0.
\<close>

definition initial_scoring ::
  "grade_application list \<Rightarrow> task list \<Rightarrow> (grade_application \<times> scores) list" where
  "initial_scoring applications tasks =
     dict_of (map (\<lambda>a. (a, \<lparr>by_tasks = dict_of (map (\<lambda>t. (Some t, None)) tasks),
                             total = 0\<rparr>)) applications)"

text \<open>The list comprehension \<open>scoring\<close> over \<open>scoring_dict.items()\<close>.\<close>

definition scoring_rows ::
  "(grade_application \<times> scores) list \<Rightarrow>
   (grade_application \<times> (task option \<times> int option) list \<times> int) list" where
  "scoring_rows scoring_dict =
     map (\<lambda>(application, sc). (application, by_tasks sc, total sc)) scoring_dict"

text \<open>
  \<open>GradeSeries.calculate_results\<close>. \<open>sorted(..., reverse=True)\<close> is stable: rows with equal
  totals keep their order, as the stable ascending sort on the negated total does.
\<close>

definition calculate_results :: "db \<Rightarrow> grade_series \<Rightarrow> py_error + results" where
  "calculate_results d self =
     (let applications = grade_applications d (gs_grade self);
          tasks = series_tasks d self;
          submissions = series_submissions d self;
          scoring_dict = initial_scoring applications tasks
      in case score_submissions applications tasks submissions scoring_dict of
           Inl e \<Rightarrow> Inl e
         | Inr scoring_dict' \<Rightarrow>
             (let scoring = scoring_rows scoring_dict'
              in Inr \<lparr>max_score = points_sum (tasks_so_far d self),
                      listing = sort_key (\<lambda>row. - snd (snd row)) scoring\<rparr>))"

section \<open>Sticker eligibility resolver\<close>

text \<open>\<open>pydash\<close>'s \<open>uniq\<close> keeps the first occurrence of every element.\<close>

definition uniq :: "'a list \<Rightarrow> 'a list" where
  "uniq xs = rev (remdups (rev xs))"

text \<open>
  \<open>sticker_auto_assignment\<close>. A set of sticker numbers is the list of its elements in the
  order in which it is iterated. \<open>stickers_by_nr\<close> is the dictionary comprehension: a later
  sticker with the same number replaces an earlier one.
\<close>

definition stickers_by_nr :: "sticker list \<Rightarrow> nat \<Rightarrow> sticker option" where
  "stickers_by_nr found = foldl (\<lambda>m s. m(st_nr s \<mapsto> s)) Map.empty found"

definition sticker_auto_assignment ::
  "db \<Rightarrow> (grade_application \<times> nat list) list \<Rightarrow> (grade_application \<times> sticker list) list" where
  "sticker_auto_assignment d eligibility =
     (let sticker_nrs = uniq (concat (map snd eligibility));
          by_nr = stickers_by_nr (filter (\<lambda>s. st_nr s \<in> set sticker_nrs) (db_stickers d))
      in map (\<lambda>(application, nrs). (application, List.map_filter by_nr nrs)) eligibility)"

text \<open>
  \<open>sync_sticker_assignment\<close>. The state is the table behind \<open>Sticker.uses\<close>: the set of
  pairs (sticker, application) of primary keys; \<open>uses.add\<close> inserts a pair.
\<close>

definition uses_add :: "sticker \<Rightarrow> grade_application \<Rightarrow> (nat \<times> nat) set \<Rightarrow> (nat \<times> nat) set" where
  "uses_add s application u = insert (st_pk s, ga_pk application) u"

definition sync_sticker_assignment ::
  "(grade_application \<times> sticker list) list \<Rightarrow> (nat \<times> nat) set \<Rightarrow> (nat \<times> nat) set" where
  "sync_sticker_assignment eligibility_listing u =
     fold (\<lambda>(application, stickers) u'. fold (\<lambda>s. uses_add s application) stickers u')
       eligibility_listing u"

text \<open>The award set of one sticker: the applications \<open>sticker.uses\<close> holds.\<close>

definition uses_of :: "(nat \<times> nat) set \<Rightarrow> sticker \<Rightarrow> nat set" where
  "uses_of u s = snd ` Set.filter (\<lambda>p. fst p = st_pk s) u"

section \<open>Sample stores\<close>

text \<open>
  A grade with two series of one task each and three applications, whose totals after
  the second series are 10, 25 and 25 points; stickers number 1 and 2 exist, 99 does not.
\<close>

definition fx_s1 :: grade_series where
  "fx_s1 = \<lparr>gs_pk = 11, gs_grade = 1, gs_series = 1, submission_deadline = 100,
            task_file_column = Some ''s1.pdf'', results_published = True\<rparr>"

definition fx_s2 :: grade_series where
  "fx_s2 = \<lparr>gs_pk = 12, gs_grade = 1, gs_series = 2, submission_deadline = 200,
            task_file_column = Some ''s2.pdf'', results_published = False\<rparr>"

definition fx_t1 :: task where
  "fx_t1 = \<lparr>task_pk = 21, task_series = 11, task_title = ''A'', task_points = 10\<rparr>"

definition fx_t2 :: task where
  "fx_t2 = \<lparr>task_pk = 22, task_series = 12, task_title = ''B'', task_points = 25\<rparr>"

definition fx_a :: "nat \<Rightarrow> grade_application" where
  "fx_a n = \<lparr>ga_pk = n, ga_grade = 1, ga_participant = n\<rparr>"

definition fx_sub :: "nat \<Rightarrow> nat \<Rightarrow> int option \<Rightarrow> task_solution_submission" where
  "fx_sub a t sc = \<lparr>sub_application = a, sub_task = t, sub_file = None, sub_score = sc\<rparr>"

definition fx_sticker :: "nat \<Rightarrow> sticker" where
  "fx_sticker n = \<lparr>st_pk = n, st_title = ''sticker'', st_nr = n, st_handpicked = False\<rparr>"

definition fx_grade :: grade where
  "fx_grade = \<lparr>grade_pk = 1, school_year = ''2019/2020'', start_date = Some 10,
               end_date = Some 20\<rparr>"

definition fx_db :: db where
  "fx_db = \<lparr>db_grades = [fx_grade], db_series = [fx_s1, fx_s2], db_tasks = [fx_t1, fx_t2],
     db_applications = [fx_a 1, fx_a 2, fx_a 3],
     db_submissions = [fx_sub 1 21 (Some 1000), fx_sub 2 22 (Some 2500), fx_sub 2 21 None,
                       fx_sub 3 22 (Some 2500)],
     db_stickers = [fx_sticker 1, fx_sticker 2]\<rparr>"

text \<open>The results of the second series of this store.\<close>

definition fx_results :: results where
  "fx_results = \<lparr>max_score = Some 35,
     listing = [(fx_a 2, [(Some fx_t2, Some 2500), (None, None)], 2500),
                (fx_a 3, [(Some fx_t2, Some 2500)], 2500),
                (fx_a 1, [(Some fx_t2, None), (None, Some 1000)], 1000)]\<rparr>"

text \<open>
  A store in which an application of grade 1 has a scored submission for a task of
  grade 2, while the first series of grade 1 has no task.
\<close>

definition fx_other_series :: grade_series where
  "fx_other_series = \<lparr>gs_pk = 31, gs_grade = 2, gs_series = 1, submission_deadline = 100,
                      task_file_column = None, results_published = False\<rparr>"

definition fx_other_task :: task where
  "fx_other_task = \<lparr>task_pk = 41, task_series = 31, task_title = ''C'', task_points = 5\<rparr>"

definition fx_cross_db :: db where
  "fx_cross_db = \<lparr>db_grades = [], db_series = [fx_s1, fx_other_series],
     db_tasks = [fx_other_task], db_applications = [fx_a 1],
     db_submissions = [fx_sub 1 41 (Some 500)], db_stickers = []\<rparr>"

text \<open>
  The first store with, in addition, a scored submission of application 1 for that task
  of grade 2.
\<close>

definition fx_mixed_db :: db where
  "fx_mixed_db = \<lparr>db_grades = [fx_grade], db_series = [fx_s1, fx_s2, fx_other_series],
     db_tasks = [fx_t1, fx_t2, fx_other_task],
     db_applications = [fx_a 1, fx_a 2, fx_a 3],
     db_submissions = [fx_sub 1 21 (Some 1000), fx_sub 2 22 (Some 2500), fx_sub 2 21 None,
                       fx_sub 3 22 (Some 2500), fx_sub 1 41 (Some 500)],
     db_stickers = [fx_sticker 1, fx_sticker 2]\<rparr>"

text \<open>A store with a series and an application but no task at all.\<close>

definition fx_no_task_db :: db where
  "fx_no_task_db = \<lparr>db_grades = [fx_grade], db_series = [fx_s1], db_tasks = [],
     db_applications = [fx_a 1], db_submissions = [], db_stickers = []\<rparr>"

text \<open>
  A third series of the same grade, without a task file and with a deadline before that
  of the second series, and the store that holds it next to the second series.
\<close>

definition fx_fileless :: grade_series where
  "fx_fileless = \<lparr>gs_pk = 13, gs_grade = 1, gs_series = 3, submission_deadline = 100,
                  task_file_column = None, results_published = False\<rparr>"

definition fx_fileless_db :: db where
  "fx_fileless_db = \<lparr>db_grades = [fx_grade], db_series = [fx_s2, fx_fileless],
     db_tasks = [], db_applications = [], db_submissions = [], db_stickers = []\<rparr>"

section \<open>Accepting submissions and the current series\<close>

text \<open>
  Since the attribute is never \<open>None\<close>, only the deadline decides.
\<close>

lemma accepts_solution_submissions_deadline:
  "accepts_solution_submissions now s \<longleftrightarrow> now < submission_deadline s"
  by (simp add: accepts_solution_submissions_def task_file_def)

text \<open>
  C1. The claim is that a series accepts solution submissions if and only if a task file
  is attached and the deadline lies strictly in the future, so that a series without a
  task file does not accept even with a future deadline. The series \<open>fx_fileless\<close> has no
  task file and the deadline 100; at time 50 \<open>accepts_solution_submissions\<close> is true of
  it.
\<close>

theorem accepts_solution_submissions_without_file:
  "task_file_column fx_fileless = None \<and> 50 < submission_deadline fx_fileless
   \<and> accepts_solution_submissions 50 fx_fileless"
  by (simp add: accepts_solution_submissions_def task_file_def fx_fileless_def)

lemma head_eq_None: "head xs = None \<longleftrightarrow> xs = []"
  by (simp add: head_def split: list.splits)

lemma head_sort_key:
  assumes "head (sort_key f xs) = Some x"
  shows "x \<in> set xs \<and> (\<forall>y \<in> set xs. f x \<le> f y)"
proof -
  from assms obtain ys where ys: "sort_key f xs = x # ys"
    by (auto simp: head_def split: list.splits)
  have "set (sort_key f xs) = set xs" by simp
  moreover have "sorted (map f (sort_key f xs))" by simp
  ultimately show ?thesis using ys by auto
qed

text \<open>
  What \<open>get_current_series\<close> computes: \<open>None\<close> exactly when no series of the grade has a
  deadline in the future; otherwise a series of the grade with a future deadline that is
  not later than that of any other such series of the grade.
\<close>

lemma get_current_series_by_deadline:
  "(get_current_series d now g = None \<longleftrightarrow>
      \<not> (\<exists>s \<in> set (db_series d). gs_grade s = grade_pk g \<and> now < submission_deadline s))
   \<and> (\<forall>s. get_current_series d now g = Some s \<longrightarrow>
         s \<in> set (db_series d) \<and> gs_grade s = grade_pk g \<and> now < submission_deadline s
         \<and> (\<forall>s' \<in> set (db_series d).
               gs_grade s' = grade_pk g \<and> now < submission_deadline s' \<longrightarrow>
               submission_deadline s \<le> submission_deadline s'))"
proof (intro conjI allI impI)
  show "get_current_series d now g = None \<longleftrightarrow>
      \<not> (\<exists>s \<in> set (db_series d). gs_grade s = grade_pk g \<and> now < submission_deadline s)"
    unfolding get_current_series_def head_eq_None
    by (auto simp: filter_empty_conv series_all_def accepts_solution_submissions_deadline
        simp flip: set_empty)
next
  fix s assume "get_current_series d now g = Some s"
  from head_sort_key [OF this [unfolded get_current_series_def]]
  show "s \<in> set (db_series d)" "gs_grade s = grade_pk g" "now < submission_deadline s"
    "\<forall>s' \<in> set (db_series d).
        gs_grade s' = grade_pk g \<and> now < submission_deadline s' \<longrightarrow>
        submission_deadline s \<le> submission_deadline s'"
    by (auto simp: series_all_def accepts_solution_submissions_deadline)
qed

text \<open>
  C9. The claim is that \<open>get_current_series\<close> returns, among the series of the grade that
  accept solution submissions, the one with the earliest deadline, and \<open>None\<close> when no
  series of the grade accepts. In the store \<open>fx_fileless_db\<close> the grade has the second
  series, with a task file and the deadline 200, and the series \<open>fx_fileless\<close>, without a
  task file and with the deadline 100. At time 50 \<open>get_current_series\<close> returns the series
  without a task file; and when that series is the only one of the grade it is returned
  as well, not \<open>None\<close>.
\<close>

theorem get_current_series_returns_fileless:
  "task_file_column fx_fileless = None \<and> task_file_column fx_s2 = Some ''s2.pdf''
   \<and> series_all fx_fileless_db fx_grade = [fx_s2, fx_fileless]
   \<and> get_current_series fx_fileless_db 50 fx_grade = Some fx_fileless
   \<and> get_current_series (fx_fileless_db\<lparr>db_series := [fx_fileless]\<rparr>) 50 fx_grade
       = Some fx_fileless"
  by (simp add: get_current_series_def series_all_def head_def
      accepts_solution_submissions_def task_file_def
      fx_fileless_db_def fx_fileless_def fx_s2_def fx_grade_def)

section \<open>Overlapping grades\<close>

text \<open>
  What \<open>full_clean\<close> checks: with valid fields and both dates set, it accepts the grade
  exactly when neither its start date nor its end date lies in the range of a stored
  grade with another primary key; an overlap error names a stored grade in whose range
  one of the two dates lies.
\<close>

lemma head_Some_mem: "head xs = Some x \<Longrightarrow> x \<in> set xs"
  by (auto simp: head_def split: list.splits)

lemma full_clean_dates:
  assumes "fields_ok self" "start_date self = Some sd" "end_date self = Some ed"
  shows "full_clean fields_ok d self =
     (case head (filter (\<lambda>g. grade_pk g \<noteq> grade_pk self)
                   (filter (\<lambda>g. date_lte (start_date g) sd \<and> date_gte (end_date g) sd
                               \<or> date_lte (start_date g) ed \<and> date_gte (end_date g) ed)
                      (db_grades d))) of
        None \<Rightarrow> Inr ()
      | Some g \<Rightarrow> Inl (DateOverlap (school_year g)))"
  using assms by (simp add: full_clean_def)

lemma full_clean_accepts_iff:
  assumes "fields_ok self" "start_date self = Some sd" "end_date self = Some ed"
  shows "full_clean fields_ok d self = Inr () \<longleftrightarrow>
     (\<forall>g \<in> set (db_grades d). grade_pk g \<noteq> grade_pk self \<longrightarrow>
        \<not> (date_lte (start_date g) sd \<and> date_gte (end_date g) sd)
        \<and> \<not> (date_lte (start_date g) ed \<and> date_gte (end_date g) ed))"
proof -
  define F where "F = filter (\<lambda>g. grade_pk g \<noteq> grade_pk self)
                   (filter (\<lambda>g. date_lte (start_date g) sd \<and> date_gte (end_date g) sd
                               \<or> date_lte (start_date g) ed \<and> date_gte (end_date g) ed)
                      (db_grades d))"
  have "full_clean fields_ok d self = Inr () \<longleftrightarrow> head F = None"
    unfolding full_clean_dates [of fields_ok self sd ed d, OF assms] F_def by (simp split: option.splits)
  also have "\<dots> \<longleftrightarrow> F = []" by (rule head_eq_None)
  also have "\<dots> \<longleftrightarrow> (\<forall>g \<in> set (db_grades d). grade_pk g \<noteq> grade_pk self \<longrightarrow>
        \<not> (date_lte (start_date g) sd \<and> date_gte (end_date g) sd)
        \<and> \<not> (date_lte (start_date g) ed \<and> date_gte (end_date g) ed))"
    unfolding F_def by (auto simp: filter_empty_conv)
  finally show ?thesis .
qed

lemma full_clean_rejects:
  assumes "fields_ok self" "start_date self = Some sd" "end_date self = Some ed"
    and "full_clean fields_ok d self = Inl (DateOverlap y)"
  shows "\<exists>g \<in> set (db_grades d). school_year g = y \<and> grade_pk g \<noteq> grade_pk self
     \<and> (date_lte (start_date g) sd \<and> date_gte (end_date g) sd
          \<or> date_lte (start_date g) ed \<and> date_gte (end_date g) ed)"
proof -
  define F where "F = filter (\<lambda>g. grade_pk g \<noteq> grade_pk self)
                   (filter (\<lambda>g. date_lte (start_date g) sd \<and> date_gte (end_date g) sd
                               \<or> date_lte (start_date g) ed \<and> date_gte (end_date g) ed)
                      (db_grades d))"
  from assms(4) have "(case head F of None \<Rightarrow> Inr ()
                        | Some g \<Rightarrow> Inl (DateOverlap (school_year g)))
                      = (Inl (DateOverlap y) :: validation_error + unit)"
    unfolding full_clean_dates [of fields_ok self sd ed d, OF assms(1-3)] F_def .
  then obtain g where g: "head F = Some g" "school_year g = y"
    by (auto split: option.splits)
  from g(1) have "g \<in> set F" by (rule head_Some_mem)
  with g(2) show ?thesis unfolding F_def by auto
qed

text \<open>
  C2. The claim is that a grade whose date range overlaps that of an existing grade in
  any way, also by strictly containing it, is rejected. Here the stored grade runs from
  day 10 to day 20 and the validated grade, with another primary key, from day 5 to
  day 25: the stored range lies inside the new one, yet \<open>full_clean\<close> returns without an
  error, since neither end of the new range falls into the stored one.
\<close>

theorem full_clean_accepts_containing_range:
  "full_clean (\<lambda>_. True)
     \<lparr>db_grades = [\<lparr>grade_pk = 1, school_year = ''2019/2020'', start_date = Some 10,
                     end_date = Some 20\<rparr>],
      db_series = [], db_tasks = [], db_applications = [], db_submissions = [],
      db_stickers = []\<rparr>
     \<lparr>grade_pk = 2, school_year = ''2018/2021'', start_date = Some 5, end_date = Some 25\<rparr>
   = Inr ()"
  by (simp add: full_clean_def head_def date_lte_def date_gte_def)

section \<open>Persisting sticker awards\<close>

lemma fold_uses_add:
  "fold (\<lambda>s. uses_add s a) ss u = u \<union> {(st_pk s, ga_pk a) | s. s \<in> set ss}"
  by (induction ss arbitrary: u) (auto simp: uses_add_def)

lemma sync_sticker_assignment_eq:
  "sync_sticker_assignment l u =
     u \<union> {(st_pk s, ga_pk a) | a ss s. (a, ss) \<in> set l \<and> s \<in> set ss}"
proof (induction l arbitrary: u)
  case Nil
  then show ?case by (simp add: sync_sticker_assignment_def)
next
  case (Cons p l)
  obtain a ss where p: "p = (a, ss)" by (cases p)
  have "sync_sticker_assignment (p # l) u =
          sync_sticker_assignment l (fold (\<lambda>s. uses_add s a) ss u)"
    by (simp add: sync_sticker_assignment_def p)
  then show ?case using Cons.IH fold_uses_add [of a ss u] p by auto
qed

text \<open>
  C8. Running \<open>sync_sticker_assignment\<close> a second time on the same listing leaves the
  association table, and so the award set of every sticker, as the first run left it;
  and after a run every application of the listing is in the award set of each of its
  stickers.
\<close>

theorem sync_sticker_assignment_idempotent:
  "sync_sticker_assignment l (sync_sticker_assignment l u) = sync_sticker_assignment l u
   \<and> (\<forall>s. uses_of (sync_sticker_assignment l (sync_sticker_assignment l u)) s
            = uses_of (sync_sticker_assignment l u) s)
   \<and> (\<forall>(a, ss) \<in> set l. \<forall>s \<in> set ss. ga_pk a \<in> uses_of (sync_sticker_assignment l u) s)"
proof -
  have 1: "sync_sticker_assignment l (sync_sticker_assignment l u)
             = sync_sticker_assignment l u"
    by (subst sync_sticker_assignment_eq) (auto simp: sync_sticker_assignment_eq)
  have 2: "\<forall>(a, ss) \<in> set l. \<forall>s \<in> set ss.
             ga_pk a \<in> uses_of (sync_sticker_assignment l u) s"
    by (force simp: sync_sticker_assignment_eq uses_of_def)
  show ?thesis using 1 2 by simp
qed

theorem sync_sticker_assignment_witness:
  "(fx_a 1, [fx_sticker 1, fx_sticker 2]) \<in> set [(fx_a 1, [fx_sticker 1, fx_sticker 2]),
                                                  (fx_a 2, [fx_sticker 2])]
   \<and> fx_sticker 2 \<in> set [fx_sticker 1, fx_sticker 2]
   \<and> ga_pk (fx_a 1) \<in> uses_of (sync_sticker_assignment
        [(fx_a 1, [fx_sticker 1, fx_sticker 2]), (fx_a 2, [fx_sticker 2])] {}) (fx_sticker 2)
   \<and> sync_sticker_assignment [(fx_a 1, [fx_sticker 1, fx_sticker 2]), (fx_a 2, [fx_sticker 2])]
       (sync_sticker_assignment
          [(fx_a 1, [fx_sticker 1, fx_sticker 2]), (fx_a 2, [fx_sticker 2])] {})
     = {(1, 1), (2, 1), (2, 2)}"
proof -
  have e: "sync_sticker_assignment
             [(fx_a 1, [fx_sticker 1, fx_sticker 2]), (fx_a 2, [fx_sticker 2])] {}
           = {(1, 1), (2, 1), (2, 2)}"
    by (auto simp: sync_sticker_assignment_def uses_add_def fx_a_def fx_sticker_def)
  show ?thesis
    using sync_sticker_assignment_idempotent
      [of "[(fx_a 1, [fx_sticker 1, fx_sticker 2]), (fx_a 2, [fx_sticker 2])]" "{}"] e
    by auto
qed

section \<open>Resolving sticker numbers\<close>

lemma foldl_by_nr_None:
  "foldl (\<lambda>m s. m(st_nr s \<mapsto> s)) m0 found n = None
     \<longleftrightarrow> m0 n = None \<and> n \<notin> st_nr ` set found"
  by (induction found arbitrary: m0) auto

lemma foldl_by_nr_Some:
  "foldl (\<lambda>m s. m(st_nr s \<mapsto> s)) m0 found n = Some s \<Longrightarrow>
     m0 n = Some s \<or> (s \<in> set found \<and> st_nr s = n)"
proof (induction found arbitrary: m0)
  case Nil
  then show ?case by simp
next
  case (Cons a found)
  from Cons.IH [of "m0(st_nr a \<mapsto> a)"] Cons.prems
  have "(m0(st_nr a \<mapsto> a)) n = Some s \<or> (s \<in> set found \<and> st_nr s = n)" by simp
  then show ?case by (auto split: if_splits)
qed

lemma stickers_by_nr_None: "stickers_by_nr found n = None \<longleftrightarrow> n \<notin> st_nr ` set found"
  by (simp add: stickers_by_nr_def foldl_by_nr_None)

lemma stickers_by_nr_Some:
  "stickers_by_nr found n = Some s \<Longrightarrow> s \<in> set found \<and> st_nr s = n"
  using foldl_by_nr_Some [of Map.empty found n s] by (simp add: stickers_by_nr_def)

lemma set_uniq: "set (uniq xs) = set xs"
  by (simp add: uniq_def)

lemma map_filter_resolved:
  assumes "\<And>n s. n \<in> set nrs \<Longrightarrow> f n = Some s \<Longrightarrow> g s = n"
  shows "map g (List.map_filter f nrs) = filter (\<lambda>n. f n \<noteq> None) nrs"
  using assms by (induction nrs) (auto split: option.splits)

lemma set_map_filter_subset:
  assumes "\<And>n s. n \<in> set nrs \<Longrightarrow> f n = Some s \<Longrightarrow> s \<in> A"
  shows "set (List.map_filter f nrs) \<subseteq> A"
  using assms by (induction nrs) (auto split: option.splits)

text \<open>
  C7. \<open>sticker_auto_assignment\<close> returns a list as long as the eligibility listing, with
  the same applications in the same order. The stickers of each element are stickers of
  the store, and their numbers are the element's sticker numbers, in the order given,
  without those for which the store has no sticker. The function has no error result.
\<close>

theorem sticker_auto_assignment_resolves:
  "length (sticker_auto_assignment d l) = length l
   \<and> map fst (sticker_auto_assignment d l) = map fst l
   \<and> (\<forall>i < length l.
         fst (sticker_auto_assignment d l ! i) = fst (l ! i)
         \<and> map st_nr (snd (sticker_auto_assignment d l ! i))
             = filter (\<lambda>n. \<exists>s \<in> set (db_stickers d). st_nr s = n) (snd (l ! i))
         \<and> set (snd (sticker_auto_assignment d l ! i)) \<subseteq> set (db_stickers d))"
proof -
  define nrs_all where "nrs_all = uniq (concat (map snd l))"
  define by_nr where
    "by_nr = stickers_by_nr (filter (\<lambda>s. st_nr s \<in> set nrs_all) (db_stickers d))"
  have saa: "sticker_auto_assignment d l
               = map (\<lambda>(application, nrs). (application, List.map_filter by_nr nrs)) l"
    by (simp add: sticker_auto_assignment_def nrs_all_def by_nr_def)
  have len: "length (sticker_auto_assignment d l) = length l" by (simp add: saa)
  have fsts: "map fst (sticker_auto_assignment d l) = map fst l"
    by (simp add: saa case_prod_unfold comp_def)
  have some: "by_nr n = Some s \<Longrightarrow> s \<in> set (db_stickers d) \<and> st_nr s = n" for n s
    using stickers_by_nr_Some [of "filter (\<lambda>s. st_nr s \<in> set nrs_all) (db_stickers d)" n s]
    by (auto simp: by_nr_def)
  have each: "fst (sticker_auto_assignment d l ! i) = fst (l ! i)
         \<and> map st_nr (snd (sticker_auto_assignment d l ! i))
             = filter (\<lambda>n. \<exists>s \<in> set (db_stickers d). st_nr s = n) (snd (l ! i))
         \<and> set (snd (sticker_auto_assignment d l ! i)) \<subseteq> set (db_stickers d)"
    if i: "i < length l" for i
  proof -
    obtain a nrs where p: "l ! i = (a, nrs)" by (cases "l ! i")
    have r: "sticker_auto_assignment d l ! i = (a, List.map_filter by_nr nrs)"
      using i p by (simp add: saa)
    have "(a, nrs) \<in> set l" using i p by (metis nth_mem)
    then have sub: "set nrs \<subseteq> set nrs_all"
      by (force simp: nrs_all_def set_uniq)
    have none: "by_nr n \<noteq> None \<longleftrightarrow> (\<exists>s \<in> set (db_stickers d). st_nr s = n)"
      if "n \<in> set nrs" for n
      using that sub by (auto simp: by_nr_def stickers_by_nr_None)
    have "map st_nr (List.map_filter by_nr nrs) = filter (\<lambda>n. by_nr n \<noteq> None) nrs"
      by (rule map_filter_resolved) (simp add: some)
    also have "\<dots> = filter (\<lambda>n. \<exists>s \<in> set (db_stickers d). st_nr s = n) nrs"
      by (rule filter_cong) (use none in blast)+
    finally have m: "map st_nr (List.map_filter by_nr nrs)
                       = filter (\<lambda>n. \<exists>s \<in> set (db_stickers d). st_nr s = n) nrs" .
    have "set (List.map_filter by_nr nrs) \<subseteq> set (db_stickers d)"
      by (rule set_map_filter_subset) (simp add: some)
    with m r p show ?thesis by simp
  qed
  show ?thesis using len fsts each by blast
qed

theorem sticker_auto_assignment_witness:
  "(0::nat) < length [(fx_a 1, [1, 2, 99::nat]), (fx_a 2, [2])]
   \<and> sticker_auto_assignment fx_db [(fx_a 1, [1, 2, 99]), (fx_a 2, [2])]
       = [(fx_a 1, [fx_sticker 1, fx_sticker 2]), (fx_a 2, [fx_sticker 2])]
   \<and> map st_nr (snd (sticker_auto_assignment fx_db [(fx_a 1, [1, 2, 99]), (fx_a 2, [2])] ! 0))
       = filter (\<lambda>n. \<exists>s \<in> set (db_stickers fx_db). st_nr s = n) [1, 2, 99]"
proof -
  have e: "sticker_auto_assignment fx_db [(fx_a 1, [1, 2, 99]), (fx_a 2, [2])]
             = [(fx_a 1, [fx_sticker 1, fx_sticker 2]), (fx_a 2, [fx_sticker 2])]"
    by (simp add: sticker_auto_assignment_def uniq_def stickers_by_nr_def
        fx_db_def fx_sticker_def fx_a_def)
  have "(0::nat) < length [(fx_a 1, [1, 2, 99::nat]), (fx_a 2, [2])]" by simp
  with sticker_auto_assignment_resolves [of fx_db "[(fx_a 1, [1, 2, 99]), (fx_a 2, [2])]"]
  have "map st_nr (snd (sticker_auto_assignment fx_db
                          [(fx_a 1, [1, 2, 99]), (fx_a 2, [2])] ! 0))
          = filter (\<lambda>n. \<exists>s \<in> set (db_stickers fx_db). st_nr s = n)
              (snd ([(fx_a 1, [1, 2, 99::nat]), (fx_a 2, [2])] ! 0))"
    by blast
  with e show ?thesis by simp
qed

section \<open>Properties of the results aggregator\<close>

subsection \<open>Dictionaries\<close>

lemma set_update_subset: "set (AList.update k v al) \<subseteq> insert (k, v) (set al)"
  by (induction al) auto

lemma foldl_update_keys:
  "fst ` set (foldl (\<lambda>dict (k, v). AList.update k v dict) acc xs)
     = fst ` set acc \<union> fst ` set xs"
proof (induction xs arbitrary: acc)
  case Nil
  then show ?case by simp
next
  case (Cons x xs)
  obtain k v where x: "x = (k, v)" by (cases x)
  have "fst ` set (foldl (\<lambda>dict (k, v). AList.update k v dict) (AList.update k v acc) xs)
          = fst ` set (AList.update k v acc) \<union> fst ` set xs"
    by (rule Cons.IH)
  also have "\<dots> = fst ` set acc \<union> fst ` set (x # xs)"
    unfolding AList.dom_update by (auto simp: x)
  finally show ?case by (simp add: x)
qed

lemma foldl_update_distinct:
  "distinct (map fst acc) \<Longrightarrow>
     distinct (map fst (foldl (\<lambda>dict (k, v). AList.update k v dict) acc xs))"
  by (induction xs arbitrary: acc) (auto simp: AList.distinct_update split: prod.splits)

lemma foldl_update_subset:
  "set (foldl (\<lambda>dict (k, v). AList.update k v dict) acc xs) \<subseteq> set acc \<union> set xs"
proof (induction xs arbitrary: acc)
  case Nil
  then show ?case by simp
next
  case (Cons x xs)
  obtain k v where x: "x = (k, v)" by (cases x)
  have "set (foldl (\<lambda>dict (k, v). AList.update k v dict) (AList.update k v acc) xs)
          \<subseteq> set (AList.update k v acc) \<union> set xs"
    by (rule Cons.IH)
  with set_update_subset [of k v acc] show ?case by (auto simp: x)
qed

lemma dict_of_keys: "fst ` set (dict_of xs) = fst ` set xs"
  by (simp add: dict_of_def foldl_update_keys)

lemma dict_of_distinct: "distinct (map fst (dict_of xs))"
  by (simp add: dict_of_def foldl_update_distinct)

lemma dict_of_subset: "set (dict_of xs) \<subseteq> set xs"
  using foldl_update_subset [of "[]" xs] by (simp add: dict_of_def)

lemma update_present_keys:
  "map_of dict a = Some sc \<Longrightarrow> map fst (AList.update a v dict) = map fst dict"
  by (auto simp: AList.update_keys dest: map_of_SomeD intro: rev_image_eqI)

lemma initial_scoring_keys: "fst ` set (initial_scoring apps tasks) = set apps"
  by (simp add: initial_scoring_def dict_of_keys image_image)

lemma initial_scoring_distinct: "distinct (map fst (initial_scoring apps tasks))"
  by (simp add: initial_scoring_def dict_of_distinct)

lemma initial_scoring_total: "(a, sc) \<in> set (initial_scoring apps tasks) \<Longrightarrow> total sc = 0"
  using dict_of_subset
    [of "map (\<lambda>a. (a, \<lparr>by_tasks = dict_of (map (\<lambda>t. (Some t, None)) tasks),
                          total = 0\<rparr>)) apps"]
  by (auto simp: initial_scoring_def)

subsection \<open>The loop over the submissions\<close>

lemma find_application_Some:
  "find_application apps i = Some a \<Longrightarrow> a \<in> set apps \<and> ga_pk a = i"
  by (auto simp: find_application_def find_Some_iff)

lemma find_application_None:
  "find_application apps i = None \<longleftrightarrow> \<not> (\<exists>a \<in> set apps. ga_pk a = i)"
  by (auto simp: find_application_def find_None_iff)

lemma score_submission_cases:
  assumes "score_submission apps tasks s dict = Inr dict'"
  obtains a sc where "a \<in> set apps" "ga_pk a = sub_application s" "map_of dict a = Some sc"
    "dict' = AList.update a
       \<lparr>by_tasks = AList.update (find_task tasks (sub_task s)) (sub_score s) (by_tasks sc),
        total = total sc + score_or_0 s\<rparr> dict"
  using assms
  by (auto simp: score_submission_def Let_def dest: find_application_Some
      split: option.splits)

text \<open>
  The loop raises no \<open>KeyError\<close> when every submission belongs to one of the applications
  and every application is a key of the dictionary.
\<close>

lemma score_submissions_succeeds:
  assumes "\<forall>s \<in> set ss. \<exists>a \<in> set apps. ga_pk a = sub_application s"
    and "set apps \<subseteq> fst ` set dict"
  shows "\<exists>dict'. score_submissions apps tasks ss dict = Inr dict'"
  using assms
proof (induction ss arbitrary: dict)
  case Nil
  then show ?case by simp
next
  case (Cons s ss)
  from Cons.prems(1) obtain a where a: "find_application apps (sub_application s) = Some a"
    using find_application_None [of apps "sub_application s"]
    by (cases "find_application apps (sub_application s)") auto
  then have "a \<in> set apps" by (simp add: find_application_Some)
  with Cons.prems(2) have "a \<in> fst ` set dict" by blast
  then obtain sc where sc: "map_of dict a = Some sc"
    by (metis domD dom_map_of_conv_image_fst)
  define dict1 where "dict1 = AList.update a
       \<lparr>by_tasks = AList.update (find_task tasks (sub_task s)) (sub_score s) (by_tasks sc),
        total = total sc + score_or_0 s\<rparr> dict"
  have step: "score_submission apps tasks s dict = Inr dict1"
    by (simp add: score_submission_def a sc dict1_def)
  have "map fst dict1 = map fst dict"
    unfolding dict1_def using sc by (rule update_present_keys)
  then have "fst ` set dict1 = fst ` set dict" by (metis set_map)
  with Cons.prems(2) have "set apps \<subseteq> fst ` set dict1" by simp
  with Cons.IH [of dict1] Cons.prems(1)
  obtain dict' where "score_submissions apps tasks ss dict1 = Inr dict'"
    by auto
  with step show ?case by simp
qed

lemma score_submissions_keys:
  "score_submissions apps tasks ss dict = Inr dict' \<Longrightarrow> map fst dict' = map fst dict"
proof (induction ss arbitrary: dict)
  case Nil
  then show ?case by simp
next
  case (Cons s ss)
  from Cons.prems obtain dict1 where step: "score_submission apps tasks s dict = Inr dict1"
    and rest: "score_submissions apps tasks ss dict1 = Inr dict'"
    by (auto split: sum.splits)
  from step have "map fst dict1 = map fst dict"
    by (rule score_submission_cases) (simp add: update_present_keys)
  with Cons.IH [OF rest] show ?case by simp
qed

text \<open>
  With distinct primary keys, the loop adds to the total of an application the scores of
  exactly the submissions that carry its primary key.
\<close>

lemma score_submissions_totals:
  assumes "score_submissions apps tasks ss dict = Inr dict'"
    and "distinct (map ga_pk apps)"
    and "fst ` set dict \<subseteq> set apps"
    and "map_of dict' a = Some sc'"
  shows "\<exists>sc. map_of dict a = Some sc
           \<and> total sc' = total sc
               + sum_list (map score_or_0 (filter (\<lambda>s. sub_application s = ga_pk a) ss))"
  using assms
proof (induction ss arbitrary: dict)
  case Nil
  then show ?case by simp
next
  case (Cons s ss)
  from Cons.prems(1) obtain dict1 where step: "score_submission apps tasks s dict = Inr dict1"
    and rest: "score_submissions apps tasks ss dict1 = Inr dict'"
    by (auto split: sum.splits)
  from step obtain a0 sc0 where a0: "a0 \<in> set apps" "ga_pk a0 = sub_application s"
    and sc0: "map_of dict a0 = Some sc0"
    and dict1: "dict1 = AList.update a0
       \<lparr>by_tasks = AList.update (find_task tasks (sub_task s)) (sub_score s) (by_tasks sc0),
        total = total sc0 + score_or_0 s\<rparr> dict"
    by (rule score_submission_cases)
  have "map fst dict1 = map fst dict"
    unfolding dict1 using sc0 by (rule update_present_keys)
  then have "fst ` set dict1 = fst ` set dict" by (metis set_map)
  with Cons.prems(3) have sub1: "fst ` set dict1 \<subseteq> set apps" by simp
  from Cons.IH [OF rest Cons.prems(2) sub1 Cons.prems(4)]
  obtain sc1 where sc1: "map_of dict1 a = Some sc1"
    and t1: "total sc' = total sc1
               + sum_list (map score_or_0 (filter (\<lambda>s. sub_application s = ga_pk a) ss))"
    by blast
  have inj: "inj_on ga_pk (set apps)" using Cons.prems(2) by (simp add: distinct_map)
  show ?case
  proof (cases "a = a0")
    case True
    with sc1 have "sc1 =
        \<lparr>by_tasks = AList.update (find_task tasks (sub_task s)) (sub_score s) (by_tasks sc0),
         total = total sc0 + score_or_0 s\<rparr>"
      by (simp add: dict1 AList.update_conv')
    then have "total sc1 = total sc0 + score_or_0 s" by simp
    with t1 True sc0 a0 show ?thesis by simp
  next
    case False
    with sc1 have old: "map_of dict a = Some sc1" by (simp add: dict1 AList.update_conv')
    then have "a \<in> fst ` set dict" by (metis map_of_SomeD fst_conv image_eqI)
    with Cons.prems(3) have "a \<in> set apps" by blast
    with False a0 inj have "ga_pk a \<noteq> sub_application s" by (metis inj_onD)
    with t1 old show ?thesis by simp
  qed
qed

subsection \<open>The result\<close>

lemma series_submissions_application:
  "s \<in> set (series_submissions d S) \<Longrightarrow>
     \<exists>a \<in> set (grade_applications d (gs_grade S)). ga_pk a = sub_application s"
  by (auto simp: series_submissions_def application_in_grade_def grade_applications_def)

text \<open>\<open>calculate_results\<close> always returns a result.\<close>

lemma calculate_results_Inr:
  "\<exists>sd. score_submissions (grade_applications d (gs_grade S)) (series_tasks d S)
          (series_submissions d S)
          (initial_scoring (grade_applications d (gs_grade S)) (series_tasks d S)) = Inr sd
      \<and> calculate_results d S =
          Inr \<lparr>max_score = points_sum (tasks_so_far d S),
               listing = sort_key (\<lambda>row. - snd (snd row)) (scoring_rows sd)\<rparr>"
proof -
  have "\<exists>sd. score_submissions (grade_applications d (gs_grade S)) (series_tasks d S)
          (series_submissions d S)
          (initial_scoring (grade_applications d (gs_grade S)) (series_tasks d S)) = Inr sd"
    by (rule score_submissions_succeeds)
       (simp_all add: series_submissions_application initial_scoring_keys)
  then obtain sd where sd:
    "score_submissions (grade_applications d (gs_grade S)) (series_tasks d S)
       (series_submissions d S)
       (initial_scoring (grade_applications d (gs_grade S)) (series_tasks d S)) = Inr sd" ..
  then have "calculate_results d S =
       Inr \<lparr>max_score = points_sum (tasks_so_far d S),
            listing = sort_key (\<lambda>row. - snd (snd row)) (scoring_rows sd)\<rparr>"
    by (simp add: calculate_results_def Let_def)
  with sd show ?thesis by blast
qed

lemma tasks_so_far_independent:
  "tasks_so_far (d\<lparr>db_applications := apps, db_submissions := subs\<rparr>) S = tasks_so_far d S"
  by (simp add: tasks_so_far_def)

subsection \<open>The sample stores, evaluated\<close>

lemma calculate_results_fx_db: "calculate_results fx_db fx_s2 = Inr fx_results"
  by (simp add: calculate_results_def grade_applications_def series_tasks_def
      series_submissions_def application_in_grade_def task_series_lte_def tasks_so_far_def
      points_sum_def initial_scoring_def scoring_rows_def dict_of_def score_submission_def
      find_application_def find_task_def score_or_0_def fx_results_def
      fx_db_def fx_s1_def fx_s2_def fx_t1_def fx_t2_def fx_a_def fx_sub_def)

lemma calculate_results_fx_cross_db:
  "calculate_results fx_cross_db fx_s1
     = Inr \<lparr>max_score = None, listing = [(fx_a 1, [(None, Some 500)], 500)]\<rparr>"
  by (simp add: calculate_results_def grade_applications_def series_tasks_def
      series_submissions_def application_in_grade_def task_series_lte_def tasks_so_far_def
      points_sum_def initial_scoring_def scoring_rows_def dict_of_def score_submission_def
      find_application_def find_task_def score_or_0_def
      fx_cross_db_def fx_s1_def fx_other_series_def fx_other_task_def fx_a_def fx_sub_def)

lemma calculate_results_fx_no_task_db:
  "calculate_results fx_no_task_db fx_s1
     = Inr \<lparr>max_score = None, listing = [(fx_a 1, [], 0)]\<rparr>"
  by (simp add: calculate_results_def grade_applications_def series_tasks_def
      series_submissions_def application_in_grade_def task_series_lte_def tasks_so_far_def
      points_sum_def initial_scoring_def scoring_rows_def dict_of_def
      fx_no_task_db_def fx_s1_def fx_a_def)

subsection \<open>Keys of the per-task mapping\<close>

text \<open>
  C3. The claim is that the keys of the per-task mapping are exactly the tasks of the
  series. In the sample store the second series has the one task \<open>fx_t2\<close>; applications 1
  and 2 also have a submission for the task of the first series. \<open>_find_task\<close> returns
  \<open>None\<close> for that task, and the loop stores the score under the key \<open>None\<close>: the
  mappings of applications 1 and 2 have the keys \<open>fx_t2\<close> and \<open>None\<close>, the one of
  application 3 the key \<open>fx_t2\<close> alone.
\<close>

theorem calculate_results_by_tasks_none_key:
  "series_tasks fx_db fx_s2 = [fx_t2]
   \<and> calculate_results fx_db fx_s2 =
       Inr \<lparr>max_score = Some 35,
            listing = [(fx_a 2, [(Some fx_t2, Some 2500), (None, None)], 2500),
                       (fx_a 3, [(Some fx_t2, Some 2500)], 2500),
                       (fx_a 1, [(Some fx_t2, None), (None, Some 1000)], 1000)]\<rparr>"
proof -
  have "series_tasks fx_db fx_s2 = [fx_t2]"
    by (simp add: series_tasks_def fx_db_def fx_s2_def fx_t1_def fx_t2_def)
  with calculate_results_fx_db show ?thesis by (simp add: fx_results_def)
qed

subsection \<open>Maximum score\<close>

text \<open>
  C5, as the claim states it, fails where no task counts: the store's sum over no rows
  is \<open>None\<close>, while the sum of the points of no task is 0.
\<close>

theorem max_score_empty_counterexample:
  "calculate_results fx_no_task_db fx_s1
     = Inr \<lparr>max_score = None, listing = [(fx_a 1, [], 0)]\<rparr>
   \<and> tasks_so_far fx_no_task_db fx_s1 = []
   \<and> sum_list (map task_points (tasks_so_far fx_no_task_db fx_s1)) = 0"
proof -
  have "tasks_so_far fx_no_task_db fx_s1 = []"
    by (simp add: tasks_so_far_def fx_no_task_db_def)
  with calculate_results_fx_no_task_db show ?thesis by simp
qed

text \<open>
  C5, amended. \<open>calculate_results\<close> returns a result whose \<open>max_score\<close> is the sum of the
  points of the tasks of the grade whose series has an ordinal up to that of the given
  series when there is such a task, and \<open>None\<close> when there is none. It is the same
  whatever the applications and submissions of the store are.
\<close>

theorem max_score_sum_or_none:
  "\<exists>res. calculate_results d S = Inr res
     \<and> max_score res = (if tasks_so_far d S = [] then None
                         else Some (sum_list (map task_points (tasks_so_far d S))))
     \<and> (\<forall>apps subs. \<exists>res'.
           calculate_results (d\<lparr>db_applications := apps, db_submissions := subs\<rparr>) S = Inr res'
           \<and> max_score res' = max_score res)"
proof -
  have m: "\<exists>res. calculate_results d' S = Inr res
             \<and> max_score res = points_sum (tasks_so_far d' S)" for d'
    using calculate_results_Inr [of d' S] by auto
  from m [of d] obtain res where res: "calculate_results d S = Inr res"
    "max_score res = points_sum (tasks_so_far d S)" by blast
  have "\<exists>res'. calculate_results (d\<lparr>db_applications := apps, db_submissions := subs\<rparr>) S
                  = Inr res' \<and> max_score res' = max_score res" for apps subs
    using m [of "d\<lparr>db_applications := apps, db_submissions := subs\<rparr>"] res(2)
    by (simp add: tasks_so_far_independent)
  with res show ?thesis by (simp add: points_sum_def)
qed

theorem max_score_sum_or_none_witness:
  "tasks_so_far fx_db fx_s2 = [fx_t1, fx_t2]
   \<and> calculate_results fx_db fx_s2 = Inr fx_results
   \<and> max_score fx_results = Some (sum_list (map task_points (tasks_so_far fx_db fx_s2)))
   \<and> calculate_results (fx_db\<lparr>db_applications := [], db_submissions := []\<rparr>) fx_s2
       = Inr \<lparr>max_score = Some 35, listing = []\<rparr>"
proof -
  have t: "tasks_so_far fx_db fx_s2 = [fx_t1, fx_t2]"
    by (simp add: tasks_so_far_def fx_db_def fx_s1_def fx_s2_def fx_t1_def fx_t2_def)
  from max_score_sum_or_none [of fx_db fx_s2] calculate_results_fx_db t
  have s: "max_score fx_results = Some (sum_list (map task_points (tasks_so_far fx_db fx_s2)))"
    and "\<exists>res'. calculate_results (fx_db\<lparr>db_applications := [], db_submissions := []\<rparr>) fx_s2
                   = Inr res' \<and> max_score res' = max_score fx_results"
    by auto
  then obtain res' where r:
    "calculate_results (fx_db\<lparr>db_applications := [], db_submissions := []\<rparr>) fx_s2 = Inr res'"
    "max_score res' = Some 35"
    by (auto simp: fx_results_def)
  have "listing res' = []"
    using r(1) calculate_results_Inr [of "fx_db\<lparr>db_applications := [], db_submissions := []\<rparr>" fx_s2]
    by (auto simp: grade_applications_def series_submissions_def initial_scoring_def
        dict_of_def scoring_rows_def)
  with r have "res' = \<lparr>max_score = Some 35, listing = []\<rparr>" by simp
  with r(1) t s calculate_results_fx_db show ?thesis by simp
qed

subsection \<open>Order of the listing\<close>

text \<open>
  C6. \<open>calculate_results\<close> returns a result whose listing is sorted by total in descending
  order: the total of a row is at most the total of the row before it, and so of every
  earlier row.
\<close>

theorem listing_sorted_descending:
  "\<exists>res. calculate_results d S = Inr res
     \<and> sorted_wrt (\<lambda>r1 r2. snd (snd r2) \<le> snd (snd r1)) (listing res)
     \<and> (\<forall>i. Suc i < length (listing res) \<longrightarrow>
            snd (snd (listing res ! Suc i)) \<le> snd (snd (listing res ! i)))"
proof -
  from calculate_results_Inr [of d S]
  obtain sd where r: "calculate_results d S =
       Inr \<lparr>max_score = points_sum (tasks_so_far d S),
            listing = sort_key (\<lambda>row. - snd (snd row)) (scoring_rows sd)\<rparr>"
    by blast
  define l where "l = sort_key (\<lambda>row. - snd (snd row)) (scoring_rows sd)"
  have "sorted (map (\<lambda>row. - snd (snd row)) l)" unfolding l_def by (rule sorted_sort_key)
  then have sw: "sorted_wrt (\<lambda>r1 r2. snd (snd r2) \<le> snd (snd r1)) l"
    by (simp add: sorted_map)
  have "snd (snd (l ! Suc i)) \<le> snd (snd (l ! i))" if "Suc i < length l" for i
    using sorted_wrt_nth_less [OF sw, of i "Suc i"] that by simp
  with sw r show ?thesis by (simp add: l_def)
qed

theorem listing_sorted_descending_witness:
  "calculate_results fx_db fx_s2 = Inr fx_results
   \<and> map (\<lambda>row. snd (snd row)) (listing fx_results) = [2500, 2500, 1000]
   \<and> Suc 1 < length (listing fx_results)
   \<and> snd (snd (listing fx_results ! Suc 1)) \<le> snd (snd (listing fx_results ! 1))"
proof -
  have len: "Suc 1 < length (listing fx_results)" by (simp add: fx_results_def)
  from listing_sorted_descending [of fx_db fx_s2] calculate_results_fx_db
  have "\<forall>i. Suc i < length (listing fx_results) \<longrightarrow>
            snd (snd (listing fx_results ! Suc i)) \<le> snd (snd (listing fx_results ! i))"
    by auto
  with len have "snd (snd (listing fx_results ! Suc 1)) \<le> snd (snd (listing fx_results ! 1))"
    by blast
  moreover have "map (\<lambda>row. snd (snd row)) (listing fx_results) = [2500, 2500, 1000]"
    by (simp add: fx_results_def)
  ultimately show ?thesis using len calculate_results_fx_db by simp
qed

subsection \<open>Cumulative totals\<close>

text \<open>
  What the loop computes: the total of a row is the sum, over the submissions that carry
  the primary key of the row's application and whose task belongs to a series with an
  ordinal up to that of the given series, of the score or 0. The grade of the task's
  series plays no part.
\<close>

lemma calculate_results_totals:
  assumes dist: "distinct (map ga_pk (db_applications d))"
    and res: "calculate_results d S = Inr res"
    and row: "(a, bt, tot) \<in> set (listing res)"
  shows "a \<in> set (grade_applications d (gs_grade S))
    \<and> tot = sum_list (map score_or_0
               [s \<leftarrow> db_submissions d.
                  sub_application s = ga_pk a \<and> task_series_lte d S (sub_task s)])"
proof -
  define apps where "apps = grade_applications d (gs_grade S)"
  define dict0 where "dict0 = initial_scoring apps (series_tasks d S)"
  from calculate_results_Inr [of d S] res
  obtain sd where sd: "score_submissions apps (series_tasks d S) (series_submissions d S) dict0
                         = Inr sd"
    and l: "listing res = sort_key (\<lambda>row. - snd (snd row)) (scoring_rows sd)"
    by (auto simp: apps_def dict0_def)
  from row l obtain sc' where in_sd: "(a, sc') \<in> set sd" and tot: "tot = total sc'"
    by (auto simp: scoring_rows_def)
  have keys: "map fst sd = map fst dict0" using sd by (rule score_submissions_keys)
  then have "distinct (map fst sd)" by (simp add: dict0_def initial_scoring_distinct)
  then have m: "map_of sd a = Some sc'" using in_sd by (rule map_of_is_SomeI)
  have d_apps: "distinct (map ga_pk apps)"
    using dist by (simp add: apps_def grade_applications_def distinct_map_filter)
  have sub0: "fst ` set dict0 \<subseteq> set apps" by (simp add: dict0_def initial_scoring_keys)
  from score_submissions_totals [OF sd d_apps sub0 m]
  obtain sc where sc: "map_of dict0 a = Some sc"
    and t: "total sc' = total sc + sum_list (map score_or_0
              (filter (\<lambda>s. sub_application s = ga_pk a) (series_submissions d S)))"
    by blast
  from sc have in0: "(a, sc) \<in> set dict0" by (rule map_of_SomeD)
  then have z: "total sc = 0" by (simp add: dict0_def initial_scoring_total)
  from in0 have "a \<in> fst ` set dict0" by (metis fst_conv image_eqI)
  then have a: "a \<in> set apps" by (simp add: dict0_def initial_scoring_keys)
  then have "application_in_grade d (gs_grade S) (ga_pk a)"
    by (auto simp: apps_def grade_applications_def application_in_grade_def)
  then have "filter (\<lambda>s. sub_application s = ga_pk a) (series_submissions d S)
      = [s \<leftarrow> db_submissions d.
           sub_application s = ga_pk a \<and> task_series_lte d S (sub_task s)]"
    unfolding series_submissions_def filter_filter
    by (intro filter_cong) auto
  with t z tot a show ?thesis by (simp add: apps_def)
qed

lemma calculate_results_fx_mixed_db:
  "calculate_results fx_mixed_db fx_s1
     = Inr \<lparr>max_score = Some 10,
            listing = [(fx_a 1, [(Some fx_t1, Some 1000), (None, Some 500)], 1500),
                       (fx_a 2, [(Some fx_t1, None)], 0),
                       (fx_a 3, [(Some fx_t1, None)], 0)]\<rparr>"
  by (simp add: calculate_results_def grade_applications_def series_tasks_def
      series_submissions_def application_in_grade_def task_series_lte_def tasks_so_far_def
      points_sum_def initial_scoring_def scoring_rows_def dict_of_def score_submission_def
      find_application_def find_task_def score_or_0_def fx_mixed_db_def
      fx_s1_def fx_s2_def fx_t1_def fx_t2_def fx_a_def fx_sub_def
      fx_other_series_def fx_other_task_def)

text \<open>
  C4. The claim is that the total of an application is the sum of its scores for the
  tasks of the grade of the series, up to the ordinal of the series. In the store
  \<open>fx_mixed_db\<close> application 1 of grade 1 has 10.00 points for the task of the first
  series of its grade and 5.00 points for a task of the first series of grade 2. The
  query of the submissions tests the grade of the application and the ordinal of the
  task's series, not the grade of the task's series, which the query of \<open>max_score\<close>
  does test: after the first series the total of application 1 is 15.00, while its
  scores for the tasks of the grade sum to 10.00 and \<open>max_score\<close> is 10.
\<close>

theorem cumulative_total_counts_other_grade:
  "calculate_results fx_mixed_db fx_s1
     = Inr \<lparr>max_score = Some 10,
            listing = [(fx_a 1, [(Some fx_t1, Some 1000), (None, Some 500)], 1500),
                       (fx_a 2, [(Some fx_t1, None)], 0),
                       (fx_a 3, [(Some fx_t1, None)], 0)]\<rparr>
   \<and> sum_list (map score_or_0
        [s \<leftarrow> db_submissions fx_mixed_db.
           sub_application s = ga_pk (fx_a 1)
           \<and> (\<exists>t \<in> set (tasks_so_far fx_mixed_db fx_s1). task_pk t = sub_task s)]) = 1000"
proof -
  have "sum_list (map score_or_0
        [s \<leftarrow> db_submissions fx_mixed_db.
           sub_application s = ga_pk (fx_a 1)
           \<and> (\<exists>t \<in> set (tasks_so_far fx_mixed_db fx_s1). task_pk t = sub_task s)]) = 1000"
    by (simp add: tasks_so_far_def score_or_0_def fx_mixed_db_def fx_s1_def fx_s2_def
        fx_t1_def fx_t2_def fx_a_def fx_sub_def fx_other_series_def fx_other_task_def)
  with calculate_results_fx_mixed_db show ?thesis by simp
qed

subsection \<open>A series before any task\<close>

text \<open>
  When no task of the grade belongs to a series with an ordinal up to that of the given
  series, \<open>calculate_results\<close> returns a result whose \<open>max_score\<close> is \<open>None\<close> and whose
  listing has a row for every application of the grade and for no other.
\<close>

lemma no_task_max_score_none:
  assumes "tasks_so_far d S = []"
  shows "\<exists>res. calculate_results d S = Inr res
    \<and> max_score res = None
    \<and> fst ` set (listing res)
        = {a \<in> set (db_applications d). ga_grade a = gs_grade S}"
proof -
  define apps where "apps = grade_applications d (gs_grade S)"
  define dict0 where "dict0 = initial_scoring apps (series_tasks d S)"
  from calculate_results_Inr [of d S]
  obtain sd where sd: "score_submissions apps (series_tasks d S) (series_submissions d S) dict0
                         = Inr sd"
    and res: "calculate_results d S =
                Inr \<lparr>max_score = points_sum (tasks_so_far d S),
                     listing = sort_key (\<lambda>row. - snd (snd row)) (scoring_rows sd)\<rparr>"
    by (auto simp: apps_def dict0_def)
  define l where "l = sort_key (\<lambda>row. - snd (snd row)) (scoring_rows sd)"
  have m: "points_sum (tasks_so_far d S) = None" using assms by (simp add: points_sum_def)
  have "map fst sd = map fst dict0" using sd by (rule score_submissions_keys)
  then have "fst ` set sd = fst ` set dict0" by (metis set_map)
  then have "fst ` set l = set apps"
    by (simp add: l_def scoring_rows_def dict0_def initial_scoring_keys image_image
        case_prod_unfold)
  then have k: "fst ` set l = {a \<in> set (db_applications d). ga_grade a = gs_grade S}"
    by (simp add: apps_def grade_applications_def)
  from res m k show ?thesis by (simp add: l_def)
qed

text \<open>
  C10. The claim is that, when no task of the grade belongs to a series with an ordinal
  up to that of the given series, \<open>max_score\<close> is \<open>None\<close> and every application of the grade
  has a row with the total 0. In the store \<open>fx_cross_db\<close> the first series of grade 1 has
  no task, and application 1, the only application of grade 1, has 5.00 points for a task
  of the first series of grade 2. \<open>max_score\<close> is \<open>None\<close>, and the total of application 1 is
  5.00: the query of the submissions does not test the grade of the task's series.
\<close>

theorem no_task_total_counts_other_grade:
  "tasks_so_far fx_cross_db fx_s1 = []
   \<and> db_applications fx_cross_db = [fx_a 1] \<and> ga_grade (fx_a 1) = gs_grade fx_s1
   \<and> calculate_results fx_cross_db fx_s1
       = Inr \<lparr>max_score = None, listing = [(fx_a 1, [(None, Some 500)], 500)]\<rparr>"
proof -
  have "tasks_so_far fx_cross_db fx_s1 = []"
    by (simp add: tasks_so_far_def fx_cross_db_def fx_s1_def fx_other_series_def
        fx_other_task_def)
  moreover have "db_applications fx_cross_db = [fx_a 1]" "ga_grade (fx_a 1) = gs_grade fx_s1"
    by (simp_all add: fx_cross_db_def fx_s1_def fx_a_def)
  ultimately show ?thesis using calculate_results_fx_cross_db by simp
qed

end
